theory Spec2Isabelle
  imports Complex_Main
begin

unbundle bit_operations_syntax

section \<open>Python values and effects\<close>

text \<open>
  The functions of \<^verbatim>\<open>common.py\<close> work on Python's unbounded integers, modelled as \<open>int\<close>:
  \<open>//\<close> and \<open>%\<close> are \<open>div\<close> and \<open>mod\<close> (both floor), \<open>&\<close>, \<open>|\<close> and \<open>~\<close> are \<open>AND\<close>, \<open>OR\<close>
  and \<open>NOT\<close> on the infinite two's complement, \<open>x >> n\<close> is \<open>drop_bit n x\<close> and \<open>x << n\<close> is
  \<open>push_bit n x\<close> for \<open>n \<ge> 0\<close>; a negative shift count raises \<open>ValueError\<close>.

  The source reports errors with \<open>print\<close> and goes on. What a call prints is part of its
  result: a list of lines, each the format string with the values of its \<open>%d\<close> arguments.
\<close>

type_synonym printed = "(string \<times> int list) list"

datatype pyexc = ValueError | TypeError | UnboundLocalError | AttributeError

datatype 'a outcome = Return 'a | Raise pyexc

text \<open>
  \<open>2**n\<close> is an integer for \<open>n \<ge> 0\<close> and float arithmetic for \<open>n < 0\<close>. The model follows
  integers only; \<open>Beyond_int\<close> marks the one place (the clip of \<open>int_round\<close> with
  \<open>outp_w < 1\<close>) where the source leaves them.
\<close>

datatype pyval = PyInt int | Beyond_int

section \<open>Quantization primitives\<close>

definition int_clip :: "int \<Rightarrow> int \<Rightarrow> bool \<Rightarrow> int" where
  "int_clip inp w symmetric =
     (if w > 0 then
        (let clip_p = 2 ^ nat (w - 1) - 1;
             clip_n = (if symmetric then - (2 ^ nat (w - 1)) + 1 else - (2 ^ nat (w - 1)))
         in if inp > clip_p then clip_p
            else if inp < clip_n then clip_n
            else inp)
      else 0)"

definition int_wrap :: "int \<Rightarrow> int \<Rightarrow> int" where
  "int_wrap inp w =
     (if w > 0 then
        (let wrap_mask = 2 ^ nat (w - 1) - 1;
             wrap_sign = 2 ^ nat (w - 1)
         in if inp AND wrap_sign = 0 then inp AND wrap_mask
            else (inp AND wrap_mask) - wrap_sign)
      else 0)"

text \<open>
  \<open>int_round\<close> returns what it printed and its value. An unsupported direction prints one
  line and leaves \<open>outp = inp\<close>. The clip sits inside \<open>if r>0\<close>, and bounds from above only.
\<close>

definition int_round :: "int \<Rightarrow> int \<Rightarrow> string \<Rightarrow> bool \<Rightarrow> int \<Rightarrow> printed \<times> pyval" where
  "int_round inp r direction clip outp_w =
     (if r > 0 then
        (let round_factor = 2 ^ nat r;
             round_p = 2 ^ nat (r - 1);
             round_n = 2 ^ nat (r - 1) - 1;
             (out, outp) =
               (if direction = ''HALF_UP'' then
                  ([], (inp + round_p) div round_factor)
                else if direction = ''HALF_AWAY'' then
                  (if inp \<ge> 0 then ([], (inp + round_p) div round_factor)
                   else ([], (inp + round_n) div round_factor))
                else if direction = ''HALF_EVEN'' then
                  (let outp = (inp + round_p) div round_factor
                   in if inp mod round_factor = round_p \<and> outp mod 2 = 1
                      then ([], outp - 1) else ([], outp))
                else
                  ([(''int_round: Error: unsupported round direction'', [])], inp))
         in if clip then
              (if outp_w < 1 then (out, Beyond_int)
               else (let clip_max = 2 ^ nat (outp_w - 1) - 1
                     in if outp > clip_max then (out, PyInt clip_max) else (out, PyInt outp)))
            else (out, PyInt outp))
      else ([], PyInt inp))"

definition int_truncate :: "int \<Rightarrow> int \<Rightarrow> string \<Rightarrow> int" where
  "int_truncate inp r direction =
     (if r > 0 then
        (if direction = ''SYMMETRIC'' then
           (if inp \<ge> 0 then drop_bit (nat r) inp
            else - (drop_bit (nat r) (- inp)))
         else drop_bit (nat r) inp)
      else inp)"

text \<open>
  \<open>int_requantize\<close> calls \<open>int_round(r, lsb_w)\<close> with the defaults: direction
  \<open>HALF_AWAY\<close>, no clip. There \<open>int_round\<close> prints nothing and returns an integer, so the
  branch for \<open>Beyond_int\<close> is never taken. \<open>int_truncate\<close> is called with its default
  direction, the empty string. \<open>r << gain_w\<close> raises for a negative \<open>gain_w\<close>.
\<close>

definition int_requantize ::
    "int \<Rightarrow> int \<Rightarrow> int \<Rightarrow> int \<Rightarrow> bool \<Rightarrow> bool \<Rightarrow> int \<Rightarrow> int outcome" where
  "int_requantize inp inp_w outp_w lsb_w lsb_round msb_clip gain_w =
     (let r0 = int_wrap inp inp_w;
          r1 = (if lsb_round then snd (int_round r0 lsb_w ''HALF_AWAY'' False 0)
                else PyInt (int_truncate r0 lsb_w ''''))
      in case r1 of
           Beyond_int \<Rightarrow> Raise TypeError
         | PyInt r1 \<Rightarrow>
             (let r2 = (if msb_clip then int_clip r1 outp_w False else int_wrap r1 outp_w)
              in if gain_w < 0 then Raise ValueError
                 else Return (int_wrap (push_bit (nat gain_w) r2) outp_w)))"

text \<open>
  \<open>to_signed\<close> on a single integer: \<open>listify\<close> wraps it in a list of one element and
  \<open>unlistify\<close> takes it out again. For \<open>width \<le> 0\<close> one of \<open>c_mask\<close> and \<open>c_sign\<close> is a
  float and \<open>&\<close> raises \<open>TypeError\<close>.
\<close>

definition to_signed :: "int \<Rightarrow> int \<Rightarrow> int outcome" where
  "to_signed arg width =
     (if width \<le> 0 then Raise TypeError
      else
        (let c_wrap = 2 ^ nat width;
             c_mask = 2 ^ nat width - 1;
             c_sign = 2 ^ nat (width - 1);
             v = arg AND c_mask
         in if v AND c_sign \<noteq> 0 then Return (v - c_wrap) else Return v))"

section \<open>Bit-field container\<close>

subsection \<open>The binary string of an integer\<close>

text \<open>
  Python's \<open>bin\<close>: \<open>bin(5) = '0b101'\<close>, \<open>bin(0) = '0b0'\<close>, \<open>bin(-5) = '-0b101'\<close>.
\<close>

fun bin_digits :: "nat \<Rightarrow> string" where
  "bin_digits n =
     (if n < 2 then [if n = 0 then CHR ''0'' else CHR ''1'']
      else bin_digits (n div 2) @ [if n mod 2 = 0 then CHR ''0'' else CHR ''1''])"

declare bin_digits.simps [simp del]

definition bin :: "int \<Rightarrow> string" where
  "bin x = (if x < 0 then ''-0b'' @ bin_digits (nat (- x)) else ''0b'' @ bin_digits (nat x))"

text \<open>
  \<open>get_bin_len\<close> cuts two characters from the front of \<open>bin(value)\<close> and counts the rest.
  For a negative value the two characters are \<open>-0\<close>, so the \<open>b\<close> is counted as well.
\<close>

definition get_bin_len :: "int \<Rightarrow> int" where
  "get_bin_len val =
     (let value_bin_str = bin val;
          value_bin = drop 2 (take (length value_bin_str) value_bin_str)
      in int (length value_bin))"

subsection \<open>The class CommonBits\<close>

record CommonBits =
  data :: int
  data_bin_len :: int

text \<open>
  \<open>__init__\<close> sets \<open>self.data\<close> only for \<open>data \<ge> 0\<close>. For a negative \<open>data\<close> it prints
  an error; then with \<open>bits > 0\<close> the object is left without the attribute \<open>data\<close>
  (\<open>Without_data\<close>, holding \<open>data_bin_len\<close> only), and with \<open>bits \<le> 0\<close> reading
  \<open>self.data\<close> raises \<open>AttributeError\<close>. A value that does not fit the passed width is
  reported by a printed line, and the object is built all the same.
\<close>

datatype construction = Object CommonBits | Without_data int

definition CommonBits_init :: "int \<Rightarrow> int \<Rightarrow> printed \<times> construction outcome" where
  "CommonBits_init dat bits =
     (let out1 = (if dat \<ge> 0 then []
                  else [(''CommonBits: Error: Input data = %d. Only unsigned integers are supported, use to_unsigned(data, bits).'', [dat])])
      in if bits > 0 then
           (let out2 = (if get_bin_len dat > bits
                        then [(''CommonBits: Error: input data %d does not fit in passed number of bits (%d)'', [dat, bits])]
                        else [])
            in (out1 @ out2,
                Return (if dat \<ge> 0 then Object \<lparr>data = dat, data_bin_len = bits\<rparr>
                        else Without_data bits)))
         else if dat \<ge> 0 then (out1, Return (Object \<lparr>data = dat, data_bin_len = get_bin_len dat\<rparr>))
         else (out1, Raise AttributeError))"

text \<open>
  The argument of \<open>[]\<close> is a slice \<open>[start:stop]\<close> (with an optional step) or one integer.
  \<open>start\<close> and \<open>stop\<close> are integers here.
\<close>

datatype bitslice = Slice int int "int option" | Index int

text \<open>\<open>bitmask\<close> is called with \<open>nof_bits \<ge> 1\<close> only.\<close>

definition bitmask :: "int \<Rightarrow> int" where
  "bitmask nof_bits = 2 ^ nat nof_bits - 1"

fun check_slice :: "CommonBits \<Rightarrow> bitslice \<Rightarrow> printed \<times> int" where
  "check_slice self (Slice start stop step) =
     (let (out1, result1) =
            (if step \<noteq> None then ([(''CommonBits: Error: no step size allowed'', [])], 1)
             else ([], 0));
          (out2, result2) =
            (if stop > start
             then (out1 @ [(''CommonBits: Error: slice range should be [ms:ls]'', [])], result1 + 1)
             else (out1, result1));
          (out3, result3) =
            (if start \<ge> data_bin_len self
             then (out2 @ [(''CommonBits: Error: Passed MSbit does not exist in data'', [])], result2 + 1)
             else (out2, result2))
      in (out3, result3))"
| "check_slice self (Index bitslice) =
     (if bitslice \<ge> data_bin_len self
      then ([(''CommonBits: Error: Passed MSbit does not exist in data'', [])], 1)
      else ([], 0))"

text \<open>
  \<open>__getitem__\<close> returns the bits, or prints and returns \<open>None\<close> for a slice that
  \<open>check_slice\<close> rejects. A negative \<open>stop\<close> or index passes \<open>check_slice\<close> and then
  raises in the shift.
\<close>

definition CommonBits_getitem :: "CommonBits \<Rightarrow> bitslice \<Rightarrow> printed \<times> int option outcome" where
  "CommonBits_getitem self bitslice =
     (let (out, result) = check_slice self bitslice
      in if result = 0 then
           (case bitslice of
              Slice start stop step \<Rightarrow>
                (let bitmask' = bitmask (start - stop + 1)
                 in if stop < 0 then (out, Raise ValueError)
                    else (out, Return (Some (drop_bit (nat stop) (data self) AND bitmask'))))
            | Index i \<Rightarrow>
                (let bitmask' = bitmask 1
                 in if i < 0 then (out, Raise ValueError)
                    else (out, Return (Some (drop_bit (nat i) (data self) AND bitmask')))))
         else (out @ [(''CommonBits: Error: invalid slice range'', [])], Return None))"

text \<open>
  \<open>__setitem__\<close> returns the object after the call. A raise leaves the object as it was.
  In the slice branch a negative value other than \<open>-1\<close> prints and leaves the local
  \<open>data\<close> unbound, so the next line raises \<open>UnboundLocalError\<close>.
\<close>

definition CommonBits_setitem :: "CommonBits \<Rightarrow> bitslice \<Rightarrow> int \<Rightarrow> printed \<times> CommonBits outcome" where
  "CommonBits_setitem self bitslice val =
     (let (out, result) = check_slice self bitslice
      in if result = 0 then
           (case bitslice of
              Slice start stop step \<Rightarrow>
                (let bitmask' = bitmask (start - stop + 1)
                 in if val \<noteq> - 1 \<and> val < 0 then
                      (out @ [(''CommonBits: Error: Input data = %d. Only unsigned integers are supported, use to_unsigned(data, bits).'', [val])],
                       Raise UnboundLocalError)
                    else
                      (let data' = (if val = - 1 then bitmask' else val)
                       in if get_bin_len data' \<le> get_bin_len bitmask' then
                            (if stop < 0 then (out, Raise ValueError)
                             else (out, Return (self\<lparr>data :=
                                     (data self AND NOT (push_bit (nat stop) bitmask'))
                                       OR push_bit (nat stop) data'\<rparr>)))
                          else
                            (out @ [(''CommonBits: Error: passed value (%d) does not fit in bits [%d..%d].'', [val, start, stop])],
                             Return self)))
            | Index i \<Rightarrow>
                (let bitmask' = bitmask 1;
                     data' = val
                 in if get_bin_len data' \<le> get_bin_len bitmask' then
                      (if i < 0 then (out, Raise ValueError)
                       else (out, Return (self\<lparr>data :=
                               (data self AND NOT (push_bit (nat i) bitmask'))
                                 OR push_bit (nat i) data'\<rparr>)))
                    else
                      (out @ [(''CommonBits: Error: passed value (%d) does not fit in bit [%d].'', [val, i])],
                       Return self)))
         else (out @ [(''CommonBits: Error: invalid slice range'', [])], Return self))"

text \<open>
  \<open>__and__\<close>: concatenation, \<open>self\<close> the most significant part. The new object is built
  from \<open>0\<close>, so the constructor always returns a full object.
\<close>

definition CommonBits_and :: "CommonBits \<Rightarrow> CommonBits \<Rightarrow> printed \<times> CommonBits outcome" where
  "CommonBits_and self other =
     (case CommonBits_init 0 (data_bin_len self + data_bin_len other) of
        (out0, Raise e) \<Rightarrow> (out0, Raise e)
      | (out0, Return (Without_data _)) \<Rightarrow> (out0, Raise AttributeError)
      | (out0, Return (Object ret)) \<Rightarrow>
          (let ms_hi = data_bin_len ret - 1;
               ms_lo = data_bin_len other;
               ls_hi = data_bin_len other - 1;
               ls_lo = 0
           in case CommonBits_setitem ret (Slice ms_hi ms_lo None) (data self) of
                (out1, Raise e) \<Rightarrow> (out0 @ out1, Raise e)
              | (out1, Return ret1) \<Rightarrow>
                  (case CommonBits_setitem ret1 (Slice ls_hi ls_lo None) (data other) of
                     (out2, Raise e) \<Rightarrow> (out0 @ out1 @ out2, Raise e)
                   | (out2, Return ret2) \<Rightarrow> (out0 @ out1 @ out2, Return ret2))))"

text \<open>
  \<open>hi\<close> and \<open>lo\<close> build \<open>data_bits = CommonBits(self.data)\<close>, without a width, and read
  \<open>data_bits[bit]\<close> for every \<open>bit\<close> (here \<open>b\<close>) of \<open>range(0, self.data_bin_len)\<close>. The loop is a
  recursion over that range, with what was printed so far and the list \<open>result\<close>. A read
  that returns \<open>None\<close> equals neither \<open>1\<close> nor \<open>0\<close>.
\<close>

fun hi_loop :: "CommonBits \<Rightarrow> int list \<Rightarrow> printed \<Rightarrow> int list \<Rightarrow> printed \<times> int list outcome" where
  "hi_loop data_bits [] out result = (out, Return result)"
| "hi_loop data_bits (b # bs) out result =
     (case CommonBits_getitem data_bits (Index b) of
        (out1, Raise e) \<Rightarrow> (out @ out1, Raise e)
      | (out1, Return x) \<Rightarrow>
          hi_loop data_bits bs (out @ out1) (if x = Some 1 then result @ [b] else result))"

definition hi :: "CommonBits \<Rightarrow> printed \<times> int list outcome" where
  "hi self =
     (case CommonBits_init (data self) 0 of
        (out0, Raise e) \<Rightarrow> (out0, Raise e)
      | (out0, Return (Without_data _)) \<Rightarrow> (out0, Raise AttributeError)
      | (out0, Return (Object data_bits)) \<Rightarrow>
          hi_loop data_bits [0..data_bin_len self - 1] out0 [])"

fun lo_loop :: "CommonBits \<Rightarrow> int list \<Rightarrow> printed \<Rightarrow> int list \<Rightarrow> printed \<times> int list outcome" where
  "lo_loop data_bits [] out result = (out, Return result)"
| "lo_loop data_bits (b # bs) out result =
     (case CommonBits_getitem data_bits (Index b) of
        (out1, Raise e) \<Rightarrow> (out @ out1, Raise e)
      | (out1, Return x) \<Rightarrow>
          lo_loop data_bits bs (out @ out1) (if x = Some 0 then result @ [b] else result))"

definition lo :: "CommonBits \<Rightarrow> printed \<times> int list outcome" where
  "lo self =
     (case CommonBits_init (data self) 0 of
        (out0, Raise e) \<Rightarrow> (out0, Raise e)
      | (out0, Return (Without_data _)) \<Rightarrow> (out0, Raise AttributeError)
      | (out0, Return (Object data_bits)) \<Rightarrow>
          lo_loop data_bits [0..data_bin_len self - 1] out0 [])"

text \<open>The invariant of the data model: a positive width, and \<open>0 \<le> data < 2^width\<close>.\<close>

definition invariant :: "CommonBits \<Rightarrow> bool" where
  "invariant c = (0 < data_bin_len c \<and> 0 \<le> data c \<and> data c < 2 ^ nat (data_bin_len c))"

section \<open>Wrapping is the two's-complement reduction\<close>

lemma wrap_sign_zero_iff: "(v AND (2::int) ^ k = 0) = (\<not> bit v k)"
  by (simp add: and_exp_eq_0_iff_not_bit)

lemma and_pow2_minus1: "(v::int) AND (2 ^ k - 1) = take_bit k v"
  by (simp add: take_bit_eq_mask mask_eq_exp_minus_1)

lemma int_wrap_signed_take_bit:
  "w > 0 \<Longrightarrow> int_wrap v w = signed_take_bit (nat (w - 1)) v"
  by (simp add: int_wrap_def Let_def wrap_sign_zero_iff and_pow2_minus1
      signed_take_bit_eq_take_bit_minus take_bit_Suc_from_most)

lemma to_signed_signed_take_bit:
  "w > 0 \<Longrightarrow> to_signed v w = Return (signed_take_bit (nat (w - 1)) v)"
proof -
  assume w: "w > 0"
  then have nw: "nat w = Suc (nat (w - 1))" by simp
  have b: "(take_bit (Suc k) v AND (2::int) ^ k \<noteq> 0) = bit v k" for k
    by (simp add: and_exp_eq_0_iff_not_bit bit_take_bit_iff)
  show ?thesis using w
    unfolding to_signed_def Let_def and_pow2_minus1 nw b
    by (simp add: signed_take_bit_eq_take_bit_minus)
qed

lemma int_wrap_range:
  "w > 0 \<Longrightarrow> - (2 ^ nat (w - 1)) \<le> int_wrap v w \<and> int_wrap v w < 2 ^ nat (w - 1)"
  by (simp add: int_wrap_signed_take_bit signed_take_bit_int_less_exp
      signed_take_bit_int_greater_eq_minus_exp)

lemma int_wrap_id:
  "w > 0 \<Longrightarrow> - (2 ^ nat (w - 1)) \<le> v \<Longrightarrow> v < 2 ^ nat (w - 1) \<Longrightarrow> int_wrap v w = v"
  by (simp add: int_wrap_signed_take_bit signed_take_bit_int_eq_self)

lemma int_clip_id:
  "w > 0 \<Longrightarrow> - (2 ^ nat (w - 1)) \<le> v \<Longrightarrow> v < 2 ^ nat (w - 1) \<Longrightarrow> int_clip v w False = v"
  by (simp add: int_clip_def Let_def)

lemma int_truncate_0: "int_truncate v 0 d = v"
  by (simp add: int_truncate_def)

text \<open>
  C10. For every integer \<open>v\<close> and width \<open>w > 0\<close>, \<open>int_wrap(v, w)\<close> is what
  \<open>to_signed(v, w)\<close> returns: masking the low \<open>w-1\<close> bits and subtracting \<open>2^(w-1)\<close> when
  the sign bit is set is the same as masking to \<open>w\<close> bits and subtracting \<open>2^w\<close> when the
  top bit of the masked value is set. Both are the reduction modulo \<open>2^w\<close> into
  \<open>[-2^(w-1), 2^(w-1)-1]\<close>, so \<open>int_wrap\<close> is the identity on that range.
\<close>

theorem int_wrap_eq_to_signed:
  "w > 0 \<Longrightarrow>
     to_signed v w = Return (int_wrap v w) \<and>
     int_wrap v w = (v + 2 ^ nat (w - 1)) mod 2 ^ nat w - 2 ^ nat (w - 1) \<and>
     (- (2 ^ nat (w - 1)) \<le> v \<and> v \<le> 2 ^ nat (w - 1) - 1 \<longrightarrow> int_wrap v w = v)"
proof -
  assume w: "w > 0"
  then have nw: "nat w = Suc (nat (w - 1))" by simp
  have "int_wrap v w = (v + 2 ^ nat (w - 1)) mod 2 ^ nat w - 2 ^ nat (w - 1)"
    using w unfolding int_wrap_signed_take_bit [OF w] nw
    by (simp add: signed_take_bit_eq_take_bit_shift take_bit_eq_mod)
  moreover have "to_signed v w = Return (int_wrap v w)"
    using w by (simp add: to_signed_signed_take_bit int_wrap_signed_take_bit)
  moreover have "- (2 ^ nat (w - 1)) \<le> v \<and> v \<le> 2 ^ nat (w - 1) - 1 \<longrightarrow> int_wrap v w = v"
    using w by (simp add: int_wrap_id)
  ultimately show ?thesis by blast
qed

theorem int_wrap_eq_to_signed_witness:
  "(0::int) < 8 \<and> to_signed 200 8 = Return (- 56) \<and> int_wrap 200 8 = - 56 \<and>
   int_wrap 100 8 = 100"
  using int_wrap_eq_to_signed [of 8 200] int_wrap_eq_to_signed [of 8 100] by simp

section \<open>Requantization with equal widths\<close>

text \<open>
  C1, as stated: \<open>requantize(v, w, w, 0, false, true, 0) = clip(v, w)\<close> for every \<open>v\<close>.
  It fails for a value outside the range of \<open>w\<close> bits: the pipeline wraps the input to
  \<open>inp_w\<close> bits first, so \<open>128\<close> at width \<open>8\<close> gives \<open>-128\<close>, while \<open>clip\<close> gives \<open>127\<close>.
\<close>

theorem requantize_same_width_not_clip:
  "int_requantize 128 8 8 0 False True 0 = Return (- 128) \<and> int_clip 128 8 False = 127 \<and>
   int_requantize 128 8 8 0 False True 0 \<noteq> Return (int_clip 128 8 False)"
  by (simp add: int_requantize_def int_wrap_def int_truncate_def int_clip_def)

text \<open>
  C1, amended: for every integer \<open>v\<close> and width \<open>w > 0\<close>,
  \<open>requantize(v, w, w, 0, false, true, 0)\<close> equals \<open>wrap(v, w)\<close>; it equals \<open>clip(v, w)\<close>
  for every \<open>v\<close> of the range \<open>[-2^(w-1), 2^(w-1)-1]\<close>.
\<close>

theorem requantize_same_width_is_wrap:
  "w > 0 \<Longrightarrow>
     int_requantize v w w 0 False True 0 = Return (int_wrap v w) \<and>
     (- (2 ^ nat (w - 1)) \<le> v \<and> v \<le> 2 ^ nat (w - 1) - 1 \<longrightarrow>
        int_requantize v w w 0 False True 0 = Return (int_clip v w False))"
proof -
  assume w: "w > 0"
  have r: "- (2 ^ nat (w - 1)) \<le> int_wrap v w" "int_wrap v w < 2 ^ nat (w - 1)"
    using int_wrap_range [OF w, of v] by simp_all
  have "int_clip (int_wrap v w) w False = int_wrap v w"
    using w r by (rule int_clip_id)
  moreover have "int_wrap (int_wrap v w) w = int_wrap v w"
    using w r by (rule int_wrap_id)
  ultimately have a: "int_requantize v w w 0 False True 0 = Return (int_wrap v w)"
    by (simp add: int_requantize_def int_truncate_0)
  show ?thesis using w by (simp add: a int_wrap_id int_clip_id)
qed

theorem requantize_same_width_is_wrap_witness:
  "(0::int) < 8 \<and> int_requantize 300 8 8 0 False True 0 = Return 44 \<and>
   int_requantize (- 100) 8 8 0 False True 0 = Return (int_clip (- 100) 8 False)"
  using requantize_same_width_is_wrap [of 8 300] requantize_same_width_is_wrap [of 8 "- 100"]
  by (simp add: int_wrap_def int_clip_def)

section \<open>Clipping\<close>

text \<open>
  C7. For \<open>w > 0\<close>, \<open>clip(value, w, symmetric)\<close> returns \<open>value\<close> inside \<open>[low, high]\<close>,
  \<open>high\<close> above it and \<open>low\<close> below it, with \<open>high = 2^(w-1)-1\<close>, and \<open>low = -2^(w-1)\<close>, or
  \<open>-2^(w-1)+1\<close> when symmetric. For \<open>w \<le> 0\<close> it returns \<open>0\<close>.
\<close>

theorem int_clip_saturates:
  "(w > 0 \<longrightarrow>
      (let high = 2 ^ nat (w - 1) - 1;
           low = (if symmetric then - (2 ^ nat (w - 1)) + 1 else - (2 ^ nat (w - 1)))
       in (low \<le> v \<and> v \<le> high \<longrightarrow> int_clip v w symmetric = v) \<and>
          (v > high \<longrightarrow> int_clip v w symmetric = high) \<and>
          (v < low \<longrightarrow> int_clip v w symmetric = low))) \<and>
   (w \<le> 0 \<longrightarrow> int_clip v w symmetric = 0)"
proof -
  define p where "p = (2::int) ^ nat (w - 1)"
  have p: "1 \<le> p" by (simp add: p_def)
  show ?thesis
    unfolding int_clip_def Let_def p_def [symmetric] using p by (cases symmetric) auto
qed

theorem int_clip_saturates_witness:
  "int_clip 5 8 False = 5 \<and> int_clip 200 8 True = 127 \<and> int_clip (- 200) 8 False = - 128 \<and>
   int_clip (- 200) 8 True = - 127 \<and> int_clip 7 0 False = 0"
  using int_clip_saturates [of 8 False 5] int_clip_saturates [of 8 True 200]
    int_clip_saturates [of 8 False "- 200"] int_clip_saturates [of 8 True "- 200"]
    int_clip_saturates [of 0 False 7]
  by simp

section \<open>Rounding\<close>

lemma floor_div_pow2: "\<lfloor>(of_int a :: real) / 2 ^ n\<rfloor> = a div 2 ^ n"
proof -
  have "\<lfloor>(of_int a :: real) / of_int (2 ^ n)\<rfloor> = a div 2 ^ n"
    by (rule floor_divide_of_int_eq)
  then show ?thesis by simp
qed

text \<open>
  C2. For \<open>r > 0\<close> (and no clip): \<open>HALF_UP\<close> returns \<open>floor((value + 2^(r-1)) / 2^r)\<close>;
  \<open>HALF_AWAY\<close> returns the same for \<open>value \<ge> 0\<close> and \<open>floor((value + 2^(r-1) - 1) / 2^r)\<close>
  for \<open>value < 0\<close>; \<open>HALF_EVEN\<close> returns the \<open>HALF_UP\<close> result, less 1 when
  \<open>value mod 2^r = 2^(r-1)\<close> and that result is odd. For \<open>r \<le> 0\<close> the value is returned
  unchanged. Nothing is printed. The six values of the claim follow.
\<close>

theorem int_round_directions:
  "(r > 0 \<longrightarrow>
      int_round v r ''HALF_UP'' False ow =
        ([], PyInt \<lfloor>(of_int (v + 2 ^ nat (r - 1)) :: real) / 2 ^ nat r\<rfloor>) \<and>
      int_round v r ''HALF_AWAY'' False ow =
        (if v \<ge> 0 then int_round v r ''HALF_UP'' False ow
         else ([], PyInt \<lfloor>(of_int (v + 2 ^ nat (r - 1) - 1) :: real) / 2 ^ nat r\<rfloor>)) \<and>
      int_round v r ''HALF_EVEN'' False ow =
        (let up = \<lfloor>(of_int (v + 2 ^ nat (r - 1)) :: real) / 2 ^ nat r\<rfloor>
         in if v mod 2 ^ nat r = 2 ^ nat (r - 1) \<and> odd up then ([], PyInt (up - 1))
            else ([], PyInt up))) \<and>
   (r \<le> 0 \<longrightarrow> int_round v r d c ow = ([], PyInt v)) \<and>
   int_round 1 1 ''HALF_UP'' False 0 = ([], PyInt 1) \<and>
   int_round (- 1) 1 ''HALF_UP'' False 0 = ([], PyInt 0) \<and>
   int_round (- 1) 1 ''HALF_AWAY'' False 0 = ([], PyInt (- 1)) \<and>
   int_round 1 1 ''HALF_EVEN'' False 0 = ([], PyInt 0) \<and>
   int_round 3 1 ''HALF_EVEN'' False 0 = ([], PyInt 2) \<and>
   int_round (- 3) 1 ''HALF_EVEN'' False 0 = ([], PyInt (- 2))"
  unfolding floor_div_pow2
  by (simp add: int_round_def Let_def odd_iff_mod_2_eq_one add_diff_eq)

theorem int_round_directions_witness:
  "int_round 5 2 ''HALF_UP'' False 0 = ([], PyInt 1) \<and>
   int_round 6 2 ''HALF_UP'' False 0 = ([], PyInt 2) \<and>
   int_round (- 6) 2 ''HALF_AWAY'' False 0 = ([], PyInt (- 2)) \<and>
   int_round 6 2 ''HALF_AWAY'' False 0 = ([], PyInt 2) \<and>
   int_round 6 2 ''HALF_EVEN'' False 0 = ([], PyInt 2) \<and>
   int_round 2 2 ''HALF_EVEN'' False 0 = ([], PyInt 0) \<and>
   int_round 7 0 ''HALF_EVEN'' True 0 = ([], PyInt 7)"
  using int_round_directions [of 2 5 0] int_round_directions [of 2 6 0]
    int_round_directions [of 2 "- 6" 0] int_round_directions [of 2 2 0]
    int_round_directions [of 0 7 0 "''HALF_EVEN''" True]
  unfolding floor_div_pow2
  by simp

text \<open>
  C6, as stated: a direction outside \<open>HALF_UP\<close>, \<open>HALF_AWAY\<close>, \<open>HALF_EVEN\<close> is rejected
  with an error instead of a value. It fails: \<open>int_round(5, 1, "HALF_DOWN")\<close> prints one
  line and returns \<open>5\<close>.
\<close>

theorem int_round_unsupported_direction_returns:
  "int_round 5 1 ''HALF_DOWN'' False 0 =
     ([(''int_round: Error: unsupported round direction'', [])], PyInt 5)"
  by (simp add: int_round_def)

text \<open>
  C6, amended: for every integer value, every \<open>r > 0\<close> and every direction outside the
  three supported ones, \<open>int_round\<close> prints the line
  \<open>int_round: Error: unsupported round direction\<close> and returns the value unrounded: the
  input itself without clip, and the smaller of the input and \<open>2^(outp_w-1)-1\<close> with clip
  and \<open>outp_w \<ge> 1\<close>.
\<close>

theorem int_round_unsupported_direction_prints:
  "r > 0 \<Longrightarrow> d \<notin> {''HALF_UP'', ''HALF_AWAY'', ''HALF_EVEN''} \<Longrightarrow>
     int_round v r d False ow =
       ([(''int_round: Error: unsupported round direction'', [])], PyInt v) \<and>
     (ow \<ge> 1 \<longrightarrow> int_round v r d True ow =
       ([(''int_round: Error: unsupported round direction'', [])],
        PyInt (min v (2 ^ nat (ow - 1) - 1))))"
  by (simp add: int_round_def Let_def min_def)

theorem int_round_unsupported_direction_prints_witness:
  "(0::int) < 3 \<and> ''NEAREST'' \<notin> {''HALF_UP'', ''HALF_AWAY'', ''HALF_EVEN''} \<and>
   int_round 77 3 ''NEAREST'' False 0 =
       ([(''int_round: Error: unsupported round direction'', [])], PyInt 77) \<and>
   int_round 77 3 ''NEAREST'' True 4 =
       ([(''int_round: Error: unsupported round direction'', [])], PyInt 7)"
  using int_round_unsupported_direction_prints [of 3 "''NEAREST''" 77 4]
    int_round_unsupported_direction_prints [of 3 "''NEAREST''" 77 0]
  by simp

section \<open>The length of the binary string\<close>

lemma length_bin_digits_pos: "1 \<le> int (length (bin_digits n))"
  by (subst bin_digits.simps) simp

lemma length_bin_digits_le:
  "0 < n \<Longrightarrow> (length (bin_digits n) \<le> k) = (n < 2 ^ k)"
proof (induction n arbitrary: k rule: bin_digits.induct)
  case (1 n)
  show ?case
  proof (cases "n < 2")
    case True
    with "1.prems" have n: "n = 1" by simp
    have "length (bin_digits 1) = 1" by (subst bin_digits.simps) simp
    moreover have "((1::nat) < 2 ^ k) = (1 \<le> k)"
      using power_strict_increasing_iff [of "2::nat" 0 k] by auto
    ultimately show ?thesis using n by simp
  next
    case False
    then have h: "0 < n div 2" by simp
    have l: "length (bin_digits n) = Suc (length (bin_digits (n div 2)))"
      using False by (subst bin_digits.simps) simp
    show ?thesis
    proof (cases k)
      case 0
      then show ?thesis using l False by simp
    next
      case (Suc j)
      have "(length (bin_digits (n div 2)) \<le> j) = (n div 2 < 2 ^ j)"
        using "1.IH" [OF False h] .
      moreover have "(n div 2 < 2 ^ j) = (n < 2 ^ Suc j)" by auto
      ultimately show ?thesis using l Suc by simp
    qed
  qed
qed

lemma get_bin_len_nonneg: "0 \<le> x \<Longrightarrow> get_bin_len x = int (length (bin_digits (nat x)))"
  by (simp add: get_bin_len_def bin_def)

lemma get_bin_len_neg: "x < 0 \<Longrightarrow> get_bin_len x = 1 + int (length (bin_digits (nat (- x))))"
  by (simp add: get_bin_len_def bin_def)

lemma get_bin_len_0: "get_bin_len 0 = 1"
  by (simp add: get_bin_len_def bin_def bin_digits.simps)

lemma get_bin_len_ge1: "1 \<le> get_bin_len x"
  using length_bin_digits_pos [of "nat x"] length_bin_digits_pos [of "nat (- x)"]
  by (cases "0 \<le> x") (simp_all add: get_bin_len_nonneg get_bin_len_neg)

lemma get_bin_len_neg_ge2: "x < 0 \<Longrightarrow> 2 \<le> get_bin_len x"
  using length_bin_digits_pos [of "nat (- x)"] by (simp add: get_bin_len_neg)

lemma get_bin_len_le_iff:
  assumes "0 \<le> x" "1 \<le> n"
  shows "(get_bin_len x \<le> n) = (x < 2 ^ nat n)"
proof (cases "x = 0")
  case True
  then show ?thesis using assms by (simp add: get_bin_len_0)
next
  case False
  with assms have p: "0 < nat x" by simp
  have "(get_bin_len x \<le> n) = (length (bin_digits (nat x)) \<le> nat n)"
    using assms by (simp add: get_bin_len_nonneg) linarith
  also have "\<dots> = (nat x < 2 ^ nat n)" by (rule length_bin_digits_le [OF p])
  also have "\<dots> = (x < 2 ^ nat n)" using assms(1) by (simp add: nat_less_iff)
  finally show ?thesis .
qed

lemma bitmask_nonneg: "0 \<le> bitmask n"
  by (simp add: bitmask_def)

lemma bitmask_mask: "bitmask n = mask (nat n)"
  by (simp add: bitmask_def mask_eq_exp_minus_1)

lemma get_bin_len_bitmask: "1 \<le> n \<Longrightarrow> get_bin_len (bitmask n) = n"
proof -
  assume n: "1 \<le> n"
  have a: "get_bin_len (bitmask n) \<le> n"
    using n by (simp add: get_bin_len_le_iff bitmask_nonneg) (simp add: bitmask_def)
  have "\<not> get_bin_len (bitmask n) \<le> n - 1"
  proof (cases "n = 1")
    case True
    then show ?thesis using get_bin_len_ge1 [of "bitmask n"] by simp
  next
    case False
    with n have m: "1 \<le> n - 1" by simp
    have "nat n = Suc (nat (n - 1))" using n by simp
    then have e: "(2::int) ^ nat n = 2 * 2 ^ nat (n - 1)" by simp
    have "(1::int) \<le> 2 ^ nat (n - 1)" by simp
    then have "\<not> bitmask n < 2 ^ nat (n - 1)" unfolding bitmask_def e by linarith
    then show ?thesis using get_bin_len_le_iff [OF bitmask_nonneg m, of n] by blast
  qed
  with a show ?thesis by linarith
qed

lemma get_bin_len_eq:
  assumes "0 \<le> x" "1 \<le> n" "x < 2 ^ nat n" "n = 1 \<or> 2 ^ nat (n - 1) \<le> x"
  shows "get_bin_len x = n"
proof -
  have a: "get_bin_len x \<le> n" using get_bin_len_le_iff [OF assms(1,2)] assms(3) by simp
  have "\<not> get_bin_len x \<le> n - 1"
  proof (cases "n = 1")
    case True
    then show ?thesis using get_bin_len_ge1 [of x] by simp
  next
    case False
    then have "1 \<le> n - 1" "\<not> x < 2 ^ nat (n - 1)" using assms(2,4) by simp_all
    then show ?thesis using get_bin_len_le_iff [OF assms(1), of "n - 1"] by blast
  qed
  then show ?thesis using a by linarith
qed

lemma get_bin_len_bound: "0 \<le> x \<Longrightarrow> x < 2 ^ nat (get_bin_len x)"
  using get_bin_len_le_iff [of x "get_bin_len x"] get_bin_len_ge1 [of x] by simp

section \<open>Reading and writing bit ranges\<close>

lemma bit_below_pow2: "0 \<le> (x::int) \<Longrightarrow> x < 2 ^ n \<Longrightarrow> bit x i \<Longrightarrow> i < n"
proof -
  assume "0 \<le> x" "x < 2 ^ n" "bit x i"
  then have "bit (take_bit n x) i" by (simp add: take_bit_int_eq_self)
  then show "i < n" by (simp add: bit_take_bit_iff)
qed

lemma write_read_bits:
  "0 \<le> (x::int) \<Longrightarrow> x < 2 ^ n \<Longrightarrow>
     drop_bit l ((d AND NOT (push_bit l (mask n))) OR push_bit l x) AND mask n = x"
  by (rule bit_eqI) (auto simp add: bit_simps dest: bit_below_pow2)

lemma write_frame_bits:
  "0 \<le> (x::int) \<Longrightarrow> x < 2 ^ n \<Longrightarrow> i < l \<or> l + n \<le> i \<Longrightarrow>
     bit ((d AND NOT (push_bit l (mask n))) OR push_bit l x) i = bit d i"
  by (auto simp add: bit_simps dest: bit_below_pow2)

lemma write_bits_bounds:
  assumes "0 \<le> (d::int)" "d < 2 ^ w" "0 \<le> x" "x < 2 ^ n" "l + n \<le> w"
  shows "0 \<le> (d AND NOT (push_bit l m)) OR push_bit l x"
    and "(d AND NOT (push_bit l m)) OR push_bit l x < 2 ^ w"
proof -
  have a0: "0 \<le> d AND NOT (push_bit l m)" using assms(1) by simp
  have a1: "d AND NOT (push_bit l m) < 2 ^ w"
    using AND_upper1 [OF assms(1), of "NOT (push_bit l m)"] assms(2) by linarith
  have b0: "0 \<le> push_bit l x" using assms(3) by simp
  have "push_bit l x < 2 ^ (l + n)"
    using assms(3,4) by (simp add: push_bit_eq_mult power_add mult.commute)
  also have "\<dots> \<le> 2 ^ w" using assms(5) by simp
  finally have b1: "push_bit l x < 2 ^ w" .
  show "0 \<le> (d AND NOT (push_bit l m)) OR push_bit l x" using a0 b0 by simp
  show "(d AND NOT (push_bit l m)) OR push_bit l x < 2 ^ w"
    using a0 a1 b1 by (rule OR_upper)
qed

lemma check_slice_ok:
  "l \<le> h \<Longrightarrow> h < data_bin_len c \<Longrightarrow> check_slice c (Slice h l None) = ([], 0)"
  by simp

lemma check_slice_zero:
  "check_slice c (Slice h l step) = (out, 0) \<Longrightarrow>
     out = [] \<and> step = None \<and> l \<le> h \<and> h < data_bin_len c"
  by (auto simp add: Let_def split: if_splits)

lemma check_index_zero:
  "check_slice c (Index i) = (out, 0) \<Longrightarrow> out = [] \<and> i < data_bin_len c"
  by (auto split: if_splits)

lemma getitem_slice:
  "0 \<le> l \<Longrightarrow> l \<le> h \<Longrightarrow> h < data_bin_len c \<Longrightarrow>
     CommonBits_getitem c (Slice h l None) =
       ([], Return (Some (drop_bit (nat l) (data c) AND mask (nat (h - l + 1)))))"
  by (simp add: CommonBits_getitem_def bitmask_mask)

lemma getitem_index:
  "0 \<le> i \<Longrightarrow> i < data_bin_len c \<Longrightarrow>
     CommonBits_getitem c (Index i) = ([], Return (Some (of_bool (bit (data c) (nat i)))))"
  by (simp add: CommonBits_getitem_def bitmask_def and_one_eq mod_2_eq_odd bit_iff_odd_drop_bit)

lemma setitem_slice:
  assumes "0 \<le> l" "l \<le> h" "h < data_bin_len c" "0 \<le> x" "x < 2 ^ nat (h - l + 1)"
  shows "CommonBits_setitem c (Slice h l None) x =
       ([], Return (c\<lparr>data := (data c AND NOT (push_bit (nat l) (mask (nat (h - l + 1)))))
                                 OR push_bit (nat l) x\<rparr>))"
proof -
  have n: "1 \<le> h - l + 1" using assms(2) by simp
  have "get_bin_len x \<le> get_bin_len (bitmask (h - l + 1))"
    using assms(4,5) n by (simp add: get_bin_len_bitmask get_bin_len_le_iff)
  then show ?thesis
    using assms by (simp add: CommonBits_setitem_def bitmask_mask)
qed

section \<open>What a write leaves behind\<close>

lemma setitem_rejected:
  "check_slice c sl = (out0, res) \<Longrightarrow> res \<noteq> 0 \<Longrightarrow>
     CommonBits_setitem c sl v =
       (out0 @ [(''CommonBits: Error: invalid slice range'', [])], Return c)"
  by (simp add: CommonBits_setitem_def del: check_slice.simps)

lemma setitem_result:
  assumes s: "CommonBits_setitem c sl v = (out, Return c')"
  obtains (same) "c' = c"
  | (written) l n m x where "0 \<le> x" "x < 2 ^ n" "l + n \<le> nat (data_bin_len c)"
      "c' = c\<lparr>data := (data c AND NOT (push_bit l m)) OR push_bit l x\<rparr>"
proof -
  obtain out0 res where cs: "check_slice c sl = (out0, res)" by (cases "check_slice c sl")
  have r: "snd (CommonBits_setitem c sl v) = Return c'" using s by simp
  show ?thesis
  proof (cases "res = 0")
    case False
    have "c' = c" using r setitem_rejected [OF cs False, of v] by simp
    then show ?thesis by (rule same)
  next
    case True
    show ?thesis
    proof (cases sl)
      case (Slice h l step)
      have cs': "check_slice c (Slice h l step) = (out0, 0)" using cs unfolding Slice True .
      have ok: "l \<le> h" "h < data_bin_len c"
        using check_slice_zero [OF cs'] by blast+
      then have n: "1 \<le> h - l + 1" by simp
      define x where "x = (if v = - 1 then bitmask (h - l + 1) else v)"
      have r': "snd (CommonBits_setitem c (Slice h l step) v) = Return c'" using r Slice by simp
      show ?thesis
      proof (cases "v \<noteq> - 1 \<and> v < 0")
        case True
        then have "snd (CommonBits_setitem c (Slice h l step) v) = Raise UnboundLocalError"
          using cs' by (simp add: CommonBits_setitem_def Let_def del: check_slice.simps)
        then have False using r' by simp
        then show ?thesis ..
      next
        case nonneg: False
        show ?thesis
        proof (cases "get_bin_len x \<le> get_bin_len (bitmask (h - l + 1))")
          case False
          then have "snd (CommonBits_setitem c (Slice h l step) v) = Return c"
            using cs' nonneg
            by (simp add: CommonBits_setitem_def Let_def x_def del: check_slice.simps)
          then have "c' = c" using r' by simp
          then show ?thesis by (rule same)
        next
          case fit: True
          show ?thesis
          proof (cases "l < 0")
            case True
            then have "snd (CommonBits_setitem c (Slice h l step) v) = Raise ValueError"
              using cs' nonneg fit
              by (simp add: CommonBits_setitem_def Let_def x_def del: check_slice.simps)
            then have False using r' by simp
            then show ?thesis ..
          next
            case False
            then have l0: "0 \<le> l" by simp
            have "snd (CommonBits_setitem c (Slice h l step) v) =
                Return (c\<lparr>data := (data c AND NOT (push_bit (nat l) (bitmask (h - l + 1))))
                                 OR push_bit (nat l) x\<rparr>)"
              using cs' nonneg fit False
              by (simp add: CommonBits_setitem_def Let_def x_def del: check_slice.simps)
            then have c': "c' = c\<lparr>data := (data c AND NOT (push_bit (nat l) (bitmask (h - l + 1))))
                                 OR push_bit (nat l) x\<rparr>"
              using r' by simp
            have x0: "0 \<le> x" using nonneg by (auto simp add: x_def bitmask_nonneg)
            have x1: "x < 2 ^ nat (h - l + 1)"
              using fit get_bin_len_le_iff [OF x0 n] by (simp add: get_bin_len_bitmask [OF n])
            have le: "nat l + nat (h - l + 1) \<le> nat (data_bin_len c)"
              using ok l0 by simp
            show ?thesis using x0 x1 le c' by (rule written)
          qed
        qed
      qed
    next
      case (Index i)
      have cs': "check_slice c (Index i) = (out0, 0)" using cs unfolding Index True .
      have ok: "i < data_bin_len c" using check_index_zero [OF cs'] by blast
      have n: "(1::int) \<le> 1" by simp
      have r': "snd (CommonBits_setitem c (Index i) v) = Return c'" using r Index by simp
      show ?thesis
      proof (cases "get_bin_len v \<le> get_bin_len (bitmask 1)")
        case False
        then have "snd (CommonBits_setitem c (Index i) v) = Return c"
          using cs' by (simp add: CommonBits_setitem_def Let_def del: check_slice.simps)
        then have "c' = c" using r' by simp
        then show ?thesis by (rule same)
      next
        case fit: True
        show ?thesis
        proof (cases "i < 0")
          case True
          then have "snd (CommonBits_setitem c (Index i) v) = Raise ValueError"
            using cs' fit by (simp add: CommonBits_setitem_def Let_def del: check_slice.simps)
          then have False using r' by simp
          then show ?thesis ..
        next
          case False
          then have l0: "0 \<le> i" by simp
          have "snd (CommonBits_setitem c (Index i) v) =
              Return (c\<lparr>data := (data c AND NOT (push_bit (nat i) (bitmask 1)))
                                 OR push_bit (nat i) v\<rparr>)"
            using cs' fit False
            by (simp add: CommonBits_setitem_def Let_def del: check_slice.simps)
          then have c': "c' = c\<lparr>data := (data c AND NOT (push_bit (nat i) (bitmask 1)))
                                 OR push_bit (nat i) v\<rparr>"
            using r' by simp
          have g: "get_bin_len v \<le> 1" using fit by (simp add: get_bin_len_bitmask [OF n])
          have x0: "0 \<le> v" using g get_bin_len_neg_ge2 [of v] by linarith
          have x1: "v < 2 ^ nat 1" using g get_bin_len_le_iff [OF x0 n] by simp
          have le: "nat i + nat 1 \<le> nat (data_bin_len c)" using ok l0 by simp
          show ?thesis using x0 x1 le c' by (rule written)
        qed
      qed
    qed
  qed
qed

lemma setitem_width:
  assumes "CommonBits_setitem c sl v = (out, Return c')"
  shows "data_bin_len c' = data_bin_len c"
  using assms by (rule setitem_result) simp_all

lemma setitem_invariant:
  assumes inv: "invariant c" and s: "CommonBits_setitem c sl v = (out, Return c')"
  shows "invariant c'"
proof -
  have d: "0 \<le> data c" "data c < 2 ^ nat (data_bin_len c)" "0 < data_bin_len c"
    using inv by (simp_all add: invariant_def)
  from s show ?thesis
  proof (rule setitem_result)
    assume "c' = c" then show ?thesis using inv by simp
  next
    fix l n m x
    assume x: "0 \<le> x" "x < 2 ^ n" "l + n \<le> nat (data_bin_len c)"
      and c': "c' = c\<lparr>data := (data c AND NOT (push_bit l m)) OR push_bit l x\<rparr>"
    show ?thesis
      unfolding invariant_def c'
      using write_bits_bounds [OF d(1,2) x, of m] d(3) by simp
  qed
qed

section \<open>Construction and concatenation\<close>

lemma init_fits:
  "0 \<le> dat \<Longrightarrow> 0 < bits \<Longrightarrow> get_bin_len dat \<le> bits \<Longrightarrow>
     CommonBits_init dat bits = ([], Return (Object \<lparr>data = dat, data_bin_len = bits\<rparr>))"
  by (simp add: CommonBits_init_def)

lemma init_default_width:
  "0 \<le> dat \<Longrightarrow> bits \<le> 0 \<Longrightarrow>
     CommonBits_init dat bits =
       ([], Return (Object \<lparr>data = dat, data_bin_len = get_bin_len dat\<rparr>))"
  by (simp add: CommonBits_init_def)

lemma init_invariant:
  assumes "0 \<le> dat" "bits \<le> 0 \<or> get_bin_len dat \<le> bits"
  shows "\<exists>c. CommonBits_init dat bits = ([], Return (Object c)) \<and> invariant c"
proof (cases "0 < bits")
  case True
  then have f: "get_bin_len dat \<le> bits" using assms(2) by simp
  then have "dat < 2 ^ nat bits" using get_bin_len_le_iff [of dat bits] assms(1) True by simp
  then show ?thesis using init_fits [OF assms(1) True f] assms(1) True
    by (simp add: invariant_def)
next
  case False
  then have b: "bits \<le> 0" by simp
  show ?thesis
    using init_default_width [OF assms(1) b] get_bin_len_bound [OF assms(1)]
      get_bin_len_ge1 [of dat] assms(1)
    by (simp add: invariant_def)
qed

lemma CommonBits_and_value:
  assumes "invariant a" "invariant b"
  shows "CommonBits_and a b =
     ([], Return \<lparr>data = data a * 2 ^ nat (data_bin_len b) + data b,
                  data_bin_len = data_bin_len a + data_bin_len b\<rparr>)"
proof -
  define wa where "wa = data_bin_len a"
  define wb where "wb = data_bin_len b"
  have a: "0 < wa" "0 \<le> data a" "data a < 2 ^ nat wa"
    using assms(1) by (simp_all add: invariant_def wa_def)
  have b: "0 < wb" "0 \<le> data b" "data b < 2 ^ nat wb"
    using assms(2) by (simp_all add: invariant_def wb_def)
  define ret where "ret = \<lparr>data = 0, data_bin_len = wa + wb\<rparr>"
  have i: "CommonBits_init 0 (wa + wb) = ([], Return (Object ret))"
    unfolding ret_def using a(1) b(1) by (intro init_fits) (simp_all add: get_bin_len_0)
  define ret1 where "ret1 = ret\<lparr>data := push_bit (nat wb) (data a)\<rparr>"
  have "CommonBits_setitem ret (Slice (wa + wb - 1) wb None) (data a) =
      ([], Return (ret\<lparr>data := (data ret AND NOT (push_bit (nat wb) (mask (nat (wa + wb - 1 - wb + 1)))))
                                 OR push_bit (nat wb) (data a)\<rparr>))"
    using a b by (intro setitem_slice) (simp_all add: ret_def)
  then have s1: "CommonBits_setitem ret (Slice (wa + wb - 1) wb None) (data a) = ([], Return ret1)"
    by (simp add: ret_def ret1_def)
  have "CommonBits_setitem ret1 (Slice (wb - 1) 0 None) (data b) =
      ([], Return (ret1\<lparr>data := (data ret1 AND NOT (push_bit (nat 0) (mask (nat (wb - 1 - 0 + 1)))))
                                 OR push_bit (nat 0) (data b)\<rparr>))"
    using a b by (intro setitem_slice) (simp_all add: ret_def ret1_def)
  moreover have "push_bit (nat wb) (data a) AND NOT (mask (nat wb)) = push_bit (nat wb) (data a)"
    by (rule bit_eqI) (auto simp add: bit_simps)
  moreover have "push_bit (nat wb) (data a) OR data b = push_bit (nat wb) (data a) + data b"
  proof -
    have "push_bit (nat wb) (data a) AND data b = 0"
      using b(2,3) by (intro bit_eqI) (auto simp add: bit_simps dest: bit_below_pow2)
    then show ?thesis by (simp add: disjunctive_add_eq_or)
  qed
  ultimately have s2: "CommonBits_setitem ret1 (Slice (wb - 1) 0 None) (data b) =
      ([], Return \<lparr>data = data a * 2 ^ nat wb + data b, data_bin_len = wa + wb\<rparr>)"
    by (simp add: ret_def ret1_def push_bit_eq_mult)
  show ?thesis
    unfolding CommonBits_and_def wa_def [symmetric] wb_def [symmetric]
    using i s1 s2 by (simp add: ret_def)
qed

section \<open>The positions of the bits\<close>

lemma getitem_index_beyond:
  "data_bin_len c \<le> i \<Longrightarrow>
     snd (CommonBits_getitem c (Index i)) = Return None"
  by (simp add: CommonBits_getitem_def)

lemma hi_loop_result:
  assumes "\<forall>b \<in> set bs. 0 \<le> b"
  shows "snd (hi_loop c bs out result) =
     Return (result @ [b \<leftarrow> bs. b < data_bin_len c \<and> bit (data c) (nat b)])"
  using assms
proof (induction bs arbitrary: out result)
  case Nil
  then show ?case by simp
next
  case (Cons b bs)
  then have b0: "0 \<le> b" and rest: "\<forall>b \<in> set bs. 0 \<le> b" by simp_all
  show ?case
  proof (cases "b < data_bin_len c")
    case True
    then show ?thesis using b0 Cons.IH [OF rest] by (simp add: getitem_index)
  next
    case False
    then have le: "data_bin_len c \<le> b" by simp
    obtain o1 where g: "CommonBits_getitem c (Index b) = (o1, Return None)"
      using getitem_index_beyond [OF le] by (cases "CommonBits_getitem c (Index b)") simp
    show ?thesis using False Cons.IH [OF rest] by (simp add: g)
  qed
qed

lemma lo_loop_result:
  assumes "\<forall>b \<in> set bs. 0 \<le> b"
  shows "snd (lo_loop c bs out result) =
     Return (result @ [b \<leftarrow> bs. b < data_bin_len c \<and> \<not> bit (data c) (nat b)])"
  using assms
proof (induction bs arbitrary: out result)
  case Nil
  then show ?case by simp
next
  case (Cons b bs)
  then have b0: "0 \<le> b" and rest: "\<forall>b \<in> set bs. 0 \<le> b" by simp_all
  show ?case
  proof (cases "b < data_bin_len c")
    case True
    then show ?thesis using b0 Cons.IH [OF rest] by (simp add: getitem_index)
  next
    case False
    then have le: "data_bin_len c \<le> b" by simp
    obtain o1 where g: "CommonBits_getitem c (Index b) = (o1, Return None)"
      using getitem_index_beyond [OF le] by (cases "CommonBits_getitem c (Index b)") simp
    show ?thesis using False Cons.IH [OF rest] by (simp add: g)
  qed
qed

lemma hi_positions:
  assumes "0 \<le> data c"
  shows "snd (hi c) = Return [b \<leftarrow> [0..data_bin_len c - 1]. bit (data c) (nat b)]"
proof -
  have "bit (data c) (nat b) \<Longrightarrow> 0 \<le> b \<Longrightarrow> b < get_bin_len (data c)" for b
    using bit_below_pow2 [OF assms get_bin_len_bound [OF assms], of "nat b"] by simp
  then have "[b \<leftarrow> [0..data_bin_len c - 1]. b < get_bin_len (data c) \<and> bit (data c) (nat b)]
      = [b \<leftarrow> [0..data_bin_len c - 1]. bit (data c) (nat b)]"
    by (intro filter_cong) auto
  then show ?thesis
    using hi_loop_result [of "[0..data_bin_len c - 1]"
        "\<lparr>data = data c, data_bin_len = get_bin_len (data c)\<rparr>" "[]" "[]"]
    by (simp add: hi_def init_default_width [OF assms])
qed

lemma lo_positions:
  assumes "0 \<le> data c"
  shows "snd (lo c) =
     Return [b \<leftarrow> [0..data_bin_len c - 1]. b < get_bin_len (data c) \<and> \<not> bit (data c) (nat b)]"
  using lo_loop_result [of "[0..data_bin_len c - 1]"
        "\<lparr>data = data c, data_bin_len = get_bin_len (data c)\<rparr>" "[]" "[]"]
  by (simp add: lo_def init_default_width [OF assms])

section \<open>Examples\<close>

lemma init_deadbeef_16: "CommonBits_init 0xDEADBEEF 16 =
     ([(''CommonBits: Error: input data %d does not fit in passed number of bits (%d)'',
        [0xDEADBEEF, 16])],
      Return (Object \<lparr>data = 0xDEADBEEF, data_bin_len = 16\<rparr>))"
proof -
  have "\<not> get_bin_len 0xDEADBEEF \<le> 16"
    using get_bin_len_le_iff [of "0xDEADBEEF" 16] by simp
  then show ?thesis by (simp add: CommonBits_init_def)
qed

lemma deadbeef_16_not_invariant: "\<not> invariant \<lparr>data = 0xDEADBEEF, data_bin_len = 16\<rparr>"
  by (simp add: invariant_def)

lemma init_256_8: "CommonBits_init 256 8 =
     ([(''CommonBits: Error: input data %d does not fit in passed number of bits (%d)'',
        [256, 8])],
      Return (Object \<lparr>data = 256, data_bin_len = 8\<rparr>))"
proof -
  have "\<not> get_bin_len 256 \<le> 8"
    using get_bin_len_le_iff [of 256 8] by simp
  then show ?thesis by (simp add: CommonBits_init_def)
qed

lemma lo_1_4: "lo \<lparr>data = 1, data_bin_len = 4\<rparr> =
  ([(''CommonBits: Error: Passed MSbit does not exist in data'', []),
    (''CommonBits: Error: invalid slice range'', []),
    (''CommonBits: Error: Passed MSbit does not exist in data'', []),
    (''CommonBits: Error: invalid slice range'', []),
    (''CommonBits: Error: Passed MSbit does not exist in data'', []),
    (''CommonBits: Error: invalid slice range'', [])], Return [])"
proof -
  have g: "get_bin_len 1 = 1" by (rule get_bin_len_eq) simp_all
  have u: "[0..(3::int)] = [0, 1, 2, 3]" by (simp add: upto.simps)
  show ?thesis
    by (simp add: lo_def init_default_width g u CommonBits_getitem_def bitmask_def)
qed

lemma hi_5_4: "hi \<lparr>data = 5, data_bin_len = 4\<rparr> =
  ([(''CommonBits: Error: Passed MSbit does not exist in data'', []),
    (''CommonBits: Error: invalid slice range'', [])], Return [0, 2])"
proof -
  have g: "get_bin_len 5 = 3" by (rule get_bin_len_eq) simp_all
  have u: "[0..(3::int)] = [0, 1, 2, 3]" by (simp add: upto.simps)
  show ?thesis
    by (simp add: hi_def init_default_width g u CommonBits_getitem_def bitmask_def drop_bit_eq_div)
qed

section \<open>The container's claims\<close>

text \<open>
  C4. For a container \<open>c\<close> of width \<open>w\<close> with \<open>0 \<le> data < 2^w\<close>, a range
  \<open>w > h \<ge> l \<ge> 0\<close> and a value \<open>x \<ge> 0\<close> that fits in \<open>h-l+1\<close> bits: the write
  \<open>c[h:l] = x\<close> prints nothing and returns; after it the read \<open>c[h:l]\<close> returns \<open>x\<close>,
  the width is the same, and every bit outside \<open>[h:l]\<close> is what it was, as a bit of
  \<open>data\<close> and as what \<open>c[j]\<close> returns for an index \<open>j\<close> of the container.
\<close>

theorem setitem_getitem_roundtrip:
  assumes "0 \<le> data c" "data c < 2 ^ nat (data_bin_len c)"
    and "0 \<le> l" "l \<le> h" "h < data_bin_len c"
    and "0 \<le> x" "x < 2 ^ nat (h - l + 1)"
  shows "\<exists>c'. CommonBits_setitem c (Slice h l None) x = ([], Return c') \<and>
      CommonBits_getitem c' (Slice h l None) = ([], Return (Some x)) \<and>
      data_bin_len c' = data_bin_len c \<and>
      (\<forall>i. i < nat l \<or> nat h < i \<longrightarrow> bit (data c') i = bit (data c) i) \<and>
      (\<forall>j. 0 \<le> j \<and> j < data_bin_len c \<and> (j < l \<or> h < j) \<longrightarrow>
         CommonBits_getitem c' (Index j) = CommonBits_getitem c (Index j))"
proof -
  define n where "n = nat (h - l + 1)"
  define c' where
    "c' = c\<lparr>data := (data c AND NOT (push_bit (nat l) (mask n))) OR push_bit (nat l) x\<rparr>"
  have x: "0 \<le> x" "x < 2 ^ n" using assms(6,7) by (simp_all add: n_def)
  have w: "data_bin_len c' = data_bin_len c" by (simp add: c'_def)
  have s: "CommonBits_setitem c (Slice h l None) x = ([], Return c')"
    unfolding c'_def n_def using assms(3-7) by (rule setitem_slice)
  have "CommonBits_getitem c' (Slice h l None) =
      ([], Return (Some (drop_bit (nat l) (data c') AND mask (nat (h - l + 1)))))"
    using assms(3,4,5) w by (intro getitem_slice) simp_all
  then have g: "CommonBits_getitem c' (Slice h l None) = ([], Return (Some x))"
    using write_read_bits [OF x, of "nat l" "data c"] by (simp add: c'_def n_def)
  have f: "bit (data c') i = bit (data c) i" if "i < nat l \<or> nat h < i" for i
  proof -
    have "i < nat l \<or> nat l + n \<le> i" using that assms(3,4) by (auto simp add: n_def)
    then show ?thesis using write_frame_bits [OF x, of i "nat l" "data c"] by (simp add: c'_def)
  qed
  have r: "CommonBits_getitem c' (Index j) = CommonBits_getitem c (Index j)"
    if "0 \<le> j \<and> j < data_bin_len c \<and> (j < l \<or> h < j)" for j
  proof -
    have "nat j < nat l \<or> nat h < nat j" using that assms(3,4) by auto
    then have "bit (data c') (nat j) = bit (data c) (nat j)" by (rule f)
    then show ?thesis using that w by (simp add: getitem_index)
  qed
  show ?thesis using s g w f r by blast
qed

theorem setitem_getitem_roundtrip_witness:
  "CommonBits_setitem \<lparr>data = 0xdeadbeef, data_bin_len = 32\<rparr> (Slice 15 0 None) 0xbabe =
     ([], Return \<lparr>data = 0xdeadbabe, data_bin_len = 32\<rparr>) \<and>
   CommonBits_getitem \<lparr>data = 0xdeadbabe, data_bin_len = 32\<rparr> (Slice 15 0 None) =
     ([], Return (Some 0xbabe)) \<and>
   CommonBits_getitem \<lparr>data = 0xdeadbabe, data_bin_len = 32\<rparr> (Index 16) =
     CommonBits_getitem \<lparr>data = 0xdeadbeef, data_bin_len = 32\<rparr> (Index 16)"
proof -
  have e: "CommonBits_setitem \<lparr>data = 0xdeadbeef, data_bin_len = 32\<rparr> (Slice 15 0 None) 0xbabe =
     ([], Return \<lparr>data = 0xdeadbabe, data_bin_len = 32\<rparr>)"
    by (subst setitem_slice) (simp_all add: mask_eq_exp_minus_1)
  show ?thesis
    using setitem_getitem_roundtrip [of "\<lparr>data = 0xdeadbeef, data_bin_len = 32\<rparr>" 0 15 "0xbabe"] e
    by simp
qed

text \<open>
  C5, as stated: constructing a container from a value with an explicit width smaller
  than the value's bit length fails with an error and builds no object. It does not:
  \<open>CommonBits(256, 8)\<close> prints one line and returns an object holding \<open>256\<close> in width
  \<open>8\<close>.
\<close>

theorem init_256_width_8_constructs:
  "CommonBits_init 256 8 =
     ([(''CommonBits: Error: input data %d does not fit in passed number of bits (%d)'',
        [256, 8])],
      Return (Object \<lparr>data = 256, data_bin_len = 8\<rparr>))"
  by (rule init_256_8)

text \<open>
  C5, amended: for every non-negative value and every explicit positive width smaller
  than the value's bit length, the constructor prints the line
  \<open>CommonBits: Error: input data %d does not fit in passed number of bits (%d)\<close> and
  returns an object whose data is the value, untruncated, and whose width is the one
  passed.
\<close>

theorem init_oversize_prints_and_constructs:
  "0 \<le> dat \<Longrightarrow> 0 < bits \<Longrightarrow> bits < get_bin_len dat \<Longrightarrow>
     CommonBits_init dat bits =
       ([(''CommonBits: Error: input data %d does not fit in passed number of bits (%d)'',
          [dat, bits])],
        Return (Object \<lparr>data = dat, data_bin_len = bits\<rparr>))"
  by (simp add: CommonBits_init_def)

theorem init_oversize_prints_and_constructs_witness:
  "(0::int) \<le> 1000 \<and> (0::int) < 4 \<and> 4 < get_bin_len 1000 \<and>
   CommonBits_init 1000 4 =
       ([(''CommonBits: Error: input data %d does not fit in passed number of bits (%d)'',
          [1000, 4])],
        Return (Object \<lparr>data = 1000, data_bin_len = 4\<rparr>))"
proof -
  have g: "4 < get_bin_len 1000" using get_bin_len_le_iff [of 1000 4] by simp
  show ?thesis using init_oversize_prints_and_constructs [of 1000 4] g by simp
qed

text \<open>
  C3, as stated: after construction and after every operation \<open>0 \<le> data < 2^width\<close>.
  It fails at construction: \<open>CommonBits(0xDEADBEEF, 16)\<close>, the example of the class's
  docstring, returns an object whose data is \<open>0xDEADBEEF\<close> in width \<open>16\<close>.
\<close>

theorem init_oversize_breaks_invariant:
  "CommonBits_init 0xDEADBEEF 16 =
     ([(''CommonBits: Error: input data %d does not fit in passed number of bits (%d)'',
        [0xDEADBEEF, 16])],
      Return (Object \<lparr>data = 0xDEADBEEF, data_bin_len = 16\<rparr>)) \<and>
   \<not> invariant \<lparr>data = 0xDEADBEEF, data_bin_len = 16\<rparr>"
  using init_deadbeef_16 deadbeef_16_not_invariant by simp

text \<open>
  C3, amended: a container constructed from a non-negative value without an explicit
  width, or with an explicit width that the value fits, satisfies \<open>0 \<le> data < 2^width\<close>
  (and \<open>width > 0\<close>) and nothing is printed; every write, indexed or ranged, that returns
  on a container satisfying it leaves a container satisfying it, of the same width; the
  concatenation of two containers satisfying it returns a container satisfying it, of
  the sum of the widths. Reads do not change the container.
\<close>

theorem invariant_kept:
  "(0 \<le> dat \<and> (bits \<le> 0 \<or> get_bin_len dat \<le> bits) \<longrightarrow>
      (\<exists>c. CommonBits_init dat bits = ([], Return (Object c)) \<and> invariant c)) \<and>
   (invariant c \<and> CommonBits_setitem c sl v = (out, Return c') \<longrightarrow>
      invariant c' \<and> data_bin_len c' = data_bin_len c) \<and>
   (invariant a \<and> invariant b \<longrightarrow>
      (\<exists>r. CommonBits_and a b = ([], Return r) \<and> invariant r \<and>
           data_bin_len r = data_bin_len a + data_bin_len b))"
proof (intro conjI impI)
  assume "0 \<le> dat \<and> (bits \<le> 0 \<or> get_bin_len dat \<le> bits)"
  then show "\<exists>c. CommonBits_init dat bits = ([], Return (Object c)) \<and> invariant c"
    using init_invariant [of dat bits] by blast
next
  assume "invariant c \<and> CommonBits_setitem c sl v = (out, Return c')"
  then show "invariant c'" using setitem_invariant [of c sl v out c'] by blast
next
  assume "invariant c \<and> CommonBits_setitem c sl v = (out, Return c')"
  then show "data_bin_len c' = data_bin_len c" using setitem_width [of c sl v out c'] by blast
next
  assume ab: "invariant a \<and> invariant b"
  define r where "r = \<lparr>data = data a * 2 ^ nat (data_bin_len b) + data b,
                  data_bin_len = data_bin_len a + data_bin_len b\<rparr>"
  have v: "CommonBits_and a b = ([], Return r)"
    unfolding r_def using ab by (intro CommonBits_and_value) simp_all
  have a: "0 < data_bin_len a" "0 \<le> data a" "data a < 2 ^ nat (data_bin_len a)"
    and b: "0 < data_bin_len b" "0 \<le> data b" "data b < 2 ^ nat (data_bin_len b)"
    using ab by (simp_all add: invariant_def)
  have "data a + 1 \<le> 2 ^ nat (data_bin_len a)" using a(3) by simp
  then have "(data a + 1) * 2 ^ nat (data_bin_len b)
      \<le> 2 ^ nat (data_bin_len a) * 2 ^ nat (data_bin_len b)"
    by (rule mult_right_mono) simp
  then have "data a * 2 ^ nat (data_bin_len b) + data b
      < 2 ^ nat (data_bin_len a) * 2 ^ nat (data_bin_len b)"
    using b(3) by (simp add: distrib_right)
  also have "\<dots> = 2 ^ nat (data_bin_len a + data_bin_len b)"
    using a(1) b(1) by (simp add: nat_add_distrib power_add)
  finally have "invariant r" using a b by (simp add: invariant_def r_def)
  then show "\<exists>r. CommonBits_and a b = ([], Return r) \<and> invariant r \<and>
           data_bin_len r = data_bin_len a + data_bin_len b"
    using v by (intro exI [of _ r]) (simp add: r_def)
qed

theorem invariant_kept_witness:
  "CommonBits_init 5 8 = ([], Return (Object \<lparr>data = 5, data_bin_len = 8\<rparr>)) \<and>
   invariant \<lparr>data = 5, data_bin_len = 8\<rparr> \<and>
   CommonBits_setitem \<lparr>data = 5, data_bin_len = 8\<rparr> (Slice 7 4 None) (- 1) =
     ([], Return \<lparr>data = 245, data_bin_len = 8\<rparr>) \<and>
   invariant \<lparr>data = 245, data_bin_len = 8\<rparr> \<and>
   invariant \<lparr>data = 62965, data_bin_len = 16\<rparr>"
proof -
  have g: "get_bin_len 5 \<le> 8" using get_bin_len_le_iff [of 5 8] by simp
  have i: "CommonBits_init 5 8 = ([], Return (Object \<lparr>data = 5, data_bin_len = 8\<rparr>))"
    using g by (simp add: init_fits)
  have s: "CommonBits_setitem \<lparr>data = 5, data_bin_len = 8\<rparr> (Slice 7 4 None) (- 1) =
     ([], Return \<lparr>data = 245, data_bin_len = 8\<rparr>)"
    by (simp add: CommonBits_setitem_def bitmask_def)
  have c: "CommonBits_and \<lparr>data = 245, data_bin_len = 8\<rparr> \<lparr>data = 245, data_bin_len = 8\<rparr> =
     ([], Return \<lparr>data = 62965, data_bin_len = 16\<rparr>)"
    by (subst CommonBits_and_value) (simp_all add: invariant_def)
  have i1: "invariant \<lparr>data = 5, data_bin_len = 8\<rparr>"
    using invariant_kept [of 5 8] g i by simp
  have i2: "invariant \<lparr>data = 245, data_bin_len = 8\<rparr>"
    using invariant_kept [of _ _ "\<lparr>data = 5, data_bin_len = 8\<rparr>" "Slice 7 4 None" "- 1" "[]"
        "\<lparr>data = 245, data_bin_len = 8\<rparr>"] i1 s by simp
  have i3: "invariant \<lparr>data = 62965, data_bin_len = 16\<rparr>"
    using invariant_kept [of _ _ _ _ _ _ _ "\<lparr>data = 245, data_bin_len = 8\<rparr>"
        "\<lparr>data = 245, data_bin_len = 8\<rparr>"] i2 c by simp
  show ?thesis using i i1 s i2 i3 by simp
qed

text \<open>
  C8. For containers \<open>a\<close> and \<open>b\<close> (each of a positive width, with \<open>0 \<le> data < 2^width\<close>),
  \<open>a & b\<close> prints nothing and returns a container of width \<open>a.width + b.width\<close> whose
  data is \<open>a.data * 2^(b.width) + b.data\<close>. In particular \<open>0xDEAD\<close> and \<open>0xBEEF\<close>, each
  of 16 bits, give \<open>0xDEADBEEF\<close> in 32 bits.
\<close>

theorem concatenate_value:
  assumes "0 < data_bin_len a" "0 \<le> data a" "data a < 2 ^ nat (data_bin_len a)"
    and "0 < data_bin_len b" "0 \<le> data b" "data b < 2 ^ nat (data_bin_len b)"
  shows "CommonBits_and a b =
     ([], Return \<lparr>data = data a * 2 ^ nat (data_bin_len b) + data b,
                  data_bin_len = data_bin_len a + data_bin_len b\<rparr>) \<and>
   CommonBits_and \<lparr>data = 0xDEAD, data_bin_len = 16\<rparr> \<lparr>data = 0xBEEF, data_bin_len = 16\<rparr> =
     ([], Return \<lparr>data = 0xDEADBEEF, data_bin_len = 32\<rparr>)"
proof
  show "CommonBits_and a b =
     ([], Return \<lparr>data = data a * 2 ^ nat (data_bin_len b) + data b,
                  data_bin_len = data_bin_len a + data_bin_len b\<rparr>)"
    using assms by (intro CommonBits_and_value) (simp_all add: invariant_def)
  show "CommonBits_and \<lparr>data = 0xDEAD, data_bin_len = 16\<rparr> \<lparr>data = 0xBEEF, data_bin_len = 16\<rparr> =
     ([], Return \<lparr>data = 0xDEADBEEF, data_bin_len = 32\<rparr>)"
    by (subst CommonBits_and_value) (simp_all add: invariant_def)
qed

theorem concatenate_value_witness:
  "CommonBits_init 0xCAFE 16 = ([], Return (Object \<lparr>data = 0xCAFE, data_bin_len = 16\<rparr>)) \<and>
   CommonBits_init 0xBABE 16 = ([], Return (Object \<lparr>data = 0xBABE, data_bin_len = 16\<rparr>)) \<and>
   CommonBits_and \<lparr>data = 0xCAFE, data_bin_len = 16\<rparr> \<lparr>data = 0xBABE, data_bin_len = 16\<rparr> =
     ([], Return \<lparr>data = 0xCAFEBABE, data_bin_len = 32\<rparr>)"
proof -
  have "get_bin_len 0xCAFE \<le> 16" "get_bin_len 0xBABE \<le> 16"
    using get_bin_len_le_iff [of "0xCAFE" 16] get_bin_len_le_iff [of "0xBABE" 16] by simp_all
  then show ?thesis
    using concatenate_value [of "\<lparr>data = 0xCAFE, data_bin_len = 16\<rparr>"
        "\<lparr>data = 0xBABE, data_bin_len = 16\<rparr>"]
    by (simp add: init_fits)
qed

text \<open>
  C9: \<open>hi()\<close> returns the indices in \<open>[0, w)\<close> of the bits that are 1 and \<open>lo()\<close> those
  of the bits that are 0. \<open>hi\<close> does (lemma \<open>hi_positions\<close>). \<open>lo\<close> does not: both read
  from \<open>CommonBits(self.data)\<close>, built without the width, so a read at an index from the
  bit length of the data on returns \<open>None\<close>, and \<open>lo\<close> leaves out the leading zeros
  (lemma \<open>lo_positions\<close>). For \<open>CommonBits(1, 4)\<close>, \<open>lo()\<close> returns the empty list, and
  the zero bits are at \<open>1, 2, 3\<close>.
\<close>

theorem lo_misses_leading_zeros:
  "CommonBits_init 1 4 = ([], Return (Object \<lparr>data = 1, data_bin_len = 4\<rparr>)) \<and>
   snd (lo \<lparr>data = 1, data_bin_len = 4\<rparr>) = Return [] \<and>
   [i \<leftarrow> [0..4 - 1]. \<not> bit (1::int) (nat i)] = [1, 2, 3]"
proof -
  have "get_bin_len 1 \<le> 4" using get_bin_len_le_iff [of 1 4] by simp
  then have i: "CommonBits_init 1 4 = ([], Return (Object \<lparr>data = 1, data_bin_len = 4\<rparr>))"
    by (simp add: init_fits)
  have u: "[0..(3::int)] = [0, 1, 2, 3]" by (simp add: upto.simps)
  have b: "[i \<leftarrow> [0..4 - 1]. \<not> bit (1::int) (nat i)] = [1, 2, 3]"
    by (simp add: u bit_1_iff)
  show ?thesis using i lo_1_4 b by simp
qed

end
